theory Spec2Isabelle
  imports Main
begin

section \<open>JavaScript values that reach the store as identifiers\<close>

text \<open>
  The store of \<^verbatim>\<open>packages/ember-data/lib/system/store.js\<close> receives identifiers as
  arbitrary JavaScript values. The values modelled here are \<^verbatim>\<open>undefined\<close>,
  \<^verbatim>\<open>null\<close>, booleans, numbers, strings and plain objects (a query hash).
  Numbers are the integers whose string form is a plain run of decimal digits
  (magnitude below \<open>10^21\<close>); fractions, \<^verbatim>\<open>NaN\<close> and the infinities are not
  modelled. A plain object is known only by an opaque tag.
\<close>

datatype jsval =
    JUndefined
  | JNull
  | JBool bool
  | JNum int
  | JStr string
  | JObj nat

definition digit_char :: "nat \<Rightarrow> char" where
  "digit_char d = ''0123456789'' ! (d mod 10)"

fun show_nat :: "nat \<Rightarrow> string" where
  "show_nat n = (if n < 10 then [digit_char n] else show_nat (n div 10) @ [digit_char (n mod 10)])"

declare show_nat.simps [simp del]

definition show_int :: "int \<Rightarrow> string" where
  "show_int i = (if i < 0 then CHR ''-'' # show_nat (nat (- i)) else show_nat (nat i))"

text \<open>The string form of a value: what \<^verbatim>\<open>v + ''\<close> and a property key \<^verbatim>\<open>obj[v]\<close> use.\<close>

fun toStr :: "jsval \<Rightarrow> string" where
  "toStr JUndefined = ''undefined''"
| "toStr JNull = ''null''"
| "toStr (JBool b) = (if b then ''true'' else ''false'')"
| "toStr (JNum i) = show_int i"
| "toStr (JStr s) = s"
| "toStr (JObj _) = ''[object Object]''"

text \<open>Truthiness, as \<^verbatim>\<open>if (v)\<close> and \<^verbatim>\<open>!v\<close> test it.\<close>

fun truthy :: "jsval \<Rightarrow> bool" where
  "truthy JUndefined = False"
| "truthy JNull = False"
| "truthy (JBool b) = b"
| "truthy (JNum i) = (i \<noteq> 0)"
| "truthy (JStr s) = (s \<noteq> [])"
| "truthy (JObj _) = True"

text \<open>The loose comparison \<^verbatim>\<open>v == null\<close>.\<close>

definition looseEqNull :: "jsval \<Rightarrow> bool" where
  "looseEqNull v = (v = JNull \<or> v = JUndefined)"

text \<open>
  \<^verbatim>\<open>var coerceId = function(id) { return id == null ? null : id+''; };\<close>
\<close>

definition coerceId :: "jsval \<Rightarrow> jsval" where
  "coerceId v = (if looseEqNull v then JNull else JStr (toStr v))"


section \<open>Objects: records, record arrays, promises\<close>

type_synonym ref = nat

text \<open>A model class, as \<^verbatim>\<open>Ember.guidFor(type)\<close> identifies it.\<close>

type_synonym tyid = nat

text \<open>
  A type reaches the store as a class or as a string key that the container resolves
  (\<^verbatim>\<open>container.lookupFactory('model:' + key)\<close>).
\<close>

datatype tykey = TClass tyid | TKey string

text \<open>
  A failed \<^verbatim>\<open>Ember.assert\<close> throws; so does a property access on
  \<^verbatim>\<open>undefined\<close> (\<open>TypeError\<close>). \<open>IdentityConflict\<close> is the assertion
  "An adapter cannot assign a new id to a record that already has an id", and
  \<open>IdAlreadyUsed\<close> the assertion "The id ... has already been used with another
  record of type ...".
\<close>

datatype error =
    NoModelFound
  | NoAdapter
  | MissingHook
  | IdAlreadyUsed
  | IdentityConflict
  | TypeError

datatype 'a outcome = Ok 'a | Throw error

text \<open>
  Modelled from the spec: the record class (\<^verbatim>\<open>DS.Model\<close>) and its state machine are
  not part of \<^verbatim>\<open>store.js\<close>. The spec names the states "empty", "loading",
  "loaded", "dirty", "in-flight", "saved", "invalid" and "deleted", and the paths
  \<open>new \<rightarrow> in-flight-create \<rightarrow> saved\<close>, \<open>loaded \<rightarrow> dirty \<rightarrow> in-flight-update \<rightarrow> saved\<close>,
  \<open>loaded/dirty \<rightarrow> deleted-pending \<rightarrow> in-flight-delete \<rightarrow> saved-deleted\<close>.
\<close>

datatype lifecycle =
    Empty
  | Loading
  | Loaded
  | New
  | Dirty
  | DeletedPending
  | InFlightCreate
  | InFlightUpdate
  | InFlightDelete
  | Saved
  | SavedDeleted
  | Invalid
  | Failed

text \<open>Modelled from the spec: the flags the store reads with \<^verbatim>\<open>get(record, ...)\<close>.\<close>

definition isEmpty :: "lifecycle \<Rightarrow> bool" where
  "isEmpty s = (s = Empty)"

definition isNew :: "lifecycle \<Rightarrow> bool" where
  "isNew s = (s = New \<or> s = InFlightCreate)"

definition isDeleted :: "lifecycle \<Rightarrow> bool" where
  "isDeleted s = (s = DeletedPending \<or> s = InFlightDelete \<or> s = SavedDeleted)"

text \<open>
  Modelled from the spec: \<^verbatim>\<open>record.loadingData()\<close> "transitions the record to
  loading".
\<close>

definition loadingData :: "lifecycle \<Rightarrow> lifecycle" where
  "loadingData s = (if s = Empty then Loading else s)"

text \<open>
  Modelled from the spec: \<^verbatim>\<open>record.loadedData()\<close>, which \<^verbatim>\<open>createRecord\<close> calls to
  "move the record out of its initial empty state"; a record made by
  \<^verbatim>\<open>createRecord\<close> is "new".
\<close>

definition loadedData :: "lifecycle \<Rightarrow> lifecycle" where
  "loadedData s = (if s = Empty then New else s)"

text \<open>
  Modelled from the spec: \<^verbatim>\<open>record.adapterWillCommit()\<close> "marks intent-to-commit on
  the record (freezing its snapshot as in-flight data)".
\<close>

definition adapterWillCommit :: "lifecycle \<Rightarrow> lifecycle" where
  "adapterWillCommit s =
     (if s = New then InFlightCreate
      else if s = DeletedPending then InFlightDelete
      else if s = Loaded \<or> s = Dirty \<or> s = Saved then InFlightUpdate
      else s)"

text \<open>Modelled from the spec: \<^verbatim>\<open>record.adapterDidCommit(data)\<close>, in-flight to saved.\<close>

definition adapterDidCommit :: "lifecycle \<Rightarrow> lifecycle" where
  "adapterDidCommit s =
     (if s = InFlightCreate \<or> s = InFlightUpdate then Saved
      else if s = InFlightDelete then SavedDeleted
      else s)"

text \<open>
  Modelled from the spec: the record object, whose class is not part of
  \<^verbatim>\<open>store.js\<close>. A record is "identified by (EntityType, Identifier)" and carries
  its state: \<^verbatim>\<open>record.constructor\<close>, \<^verbatim>\<open>get(record, 'id')\<close> and the state above.
  \<^verbatim>\<open>type._create({ id: id, store: this })\<close> makes an "empty shell" that holds the id
  it is given, unchanged.
\<close>

record model =
  mtype :: tyid
  mid :: jsval
  mstate :: lifecycle

text \<open>
  The per-type index that \<^verbatim>\<open>typeMapFor\<close> creates:
  \<^verbatim>\<open>{ idToRecord: {}, records: [], metadata: {} }\<close>, with \<^verbatim>\<open>findAllCache\<close> added by
  \<^verbatim>\<open>all\<close>. The object \<^verbatim>\<open>idToRecord\<close> is a map over its own keys; keys inherited
  from \<^verbatim>\<open>Object.prototype\<close> are not modelled. There is no \<^verbatim>\<open>idToCid\<close> property.
\<close>

record typeMap =
  idToRecord :: "string \<rightharpoonup> ref"
  records :: "ref list"
  metadata :: "string \<rightharpoonup> jsval"
  findAllCache :: "ref option"

definition emptyTypeMap :: typeMap where
  "emptyTypeMap = \<lparr>idToRecord = Map.empty, records = [], metadata = Map.empty, findAllCache = None\<rparr>"

text \<open>
  Modelled from the spec: the record array classes and the record array manager are
  not part of \<^verbatim>\<open>store.js\<close>. A collection is of one type, is "all",
  "query-populated" or a to-many relationship's backing collection, and carries the
  flags the store sets: \<open>isLoaded\<close>, \<open>isUpdating\<close> (clear on a new collection) and
  the count of records still loading. Membership is the manager's and is not
  modelled.
\<close>

datatype arrayKind =
    RecordArray
  | AdapterPopulatedRecordArray jsval
  | ManyArray "ref list"

record recordArray =
  atype :: tyid
  akind :: arrayKind
  isLoaded :: bool
  isUpdating :: bool
  loadingRecordsCount :: nat

text \<open>
  A promise is pending (\<^verbatim>\<open>Ember.RSVP.defer()\<close>) or already fulfilled with a record
  (\<^verbatim>\<open>Ember.RSVP.resolve(record)\<close>). A resolver is known by its promise.
\<close>

datatype promise = Pending | Fulfilled ref

text \<open>What a store method hands back.\<close>

datatype handle = RecordRef ref | ArrayRef ref | PromiseRef ref

text \<open>
  The adapter is an external collaborator. Each call the store makes to it is logged
  with its arguments; \<open>AFind type id resolver\<close> is
  \<^verbatim>\<open>adapter._find(store, type, id, resolver)\<close>, and so on.
\<close>

datatype adapter_call =
    AFind tyid jsval ref
  | AFindMany tyid "jsval list" ref ref
  | AFindAll tyid jsval ref
  | AFindQuery tyid jsval ref ref
  | ACreateRecord tyid ref ref
  | ADeleteRecord tyid ref ref
  | AUpdateRecord tyid ref ref

text \<open>
  What the store asks of an adapter object: whether a hook is there, and the value
  \<^verbatim>\<open>generateIdForRecord\<close> returns when the adapter has one.
\<close>

record adapter =
  hasFind :: bool
  hasFindMany :: bool
  hasFindAll :: bool
  hasFindQuery :: bool
  generateIdForRecord :: "jsval option"

text \<open>Work handed to \<^verbatim>\<open>Ember.run.once\<close>.\<close>

datatype task = FlushPendingSave | TriggerDidLoad ref

text \<open>
  The store (\<open>typeMaps\<close>, \<open>pendingSave\<close>) with everything it touches: the record,
  record array and promise objects (an object is its index; nothing is ever freed),
  the log of adapter calls, the run loop's once-queue, and the container's answers
  (\<open>factories\<close> for \<^verbatim>\<open>lookupFactory('model:' + key)\<close>, \<open>adapters\<close> for
  \<^verbatim>\<open>adapterForType\<close>).
\<close>

record world =
  typeMaps :: "tyid \<rightharpoonup> typeMap"
  pendingSave :: "(ref \<times> ref) list"
  models :: "model list"
  arrays :: "recordArray list"
  promises :: "promise list"
  adapterLog :: "adapter_call list"
  runOnce :: "task list"
  factories :: "string \<rightharpoonup> tyid"
  adapters :: "tyid \<Rightarrow> adapter option"

text \<open>\<^verbatim>\<open>init\<close>: no type maps, an empty pending-save queue.\<close>

definition init :: "(string \<rightharpoonup> tyid) \<Rightarrow> (tyid \<Rightarrow> adapter option) \<Rightarrow> world" where
  "init fs ads =
     \<lparr>typeMaps = Map.empty, pendingSave = [], models = [], arrays = [], promises = [],
      adapterLog = [], runOnce = [], factories = fs, adapters = ads\<rparr>"

section \<open>Helpers for objects\<close>

definition getModel :: "world \<Rightarrow> ref \<Rightarrow> model option" where
  "getModel w r = (if r < length (models w) then Some (models w ! r) else None)"

definition setState :: "ref \<Rightarrow> (lifecycle \<Rightarrow> lifecycle) \<Rightarrow> world \<Rightarrow> world" where
  "setState r f w = w\<lparr>models := (models w)[r := (models w ! r)\<lparr>mstate := f (mstate (models w ! r))\<rparr>]\<rparr>"

definition setId :: "ref \<Rightarrow> jsval \<Rightarrow> world \<Rightarrow> world" where
  "setId r i w = w\<lparr>models := (models w)[r := (models w ! r)\<lparr>mid := i\<rparr>]\<rparr>"

definition rsvpDefer :: "world \<Rightarrow> ref \<times> world" where
  "rsvpDefer w = (length (promises w), w\<lparr>promises := promises w @ [Pending]\<rparr>)"


text \<open>\<^verbatim>\<open>Ember.run.once\<close>: the same work is queued once per run loop.\<close>

definition once :: "task \<Rightarrow> world \<Rightarrow> world" where
  "once t w = (if t \<in> set (runOnce w) then w else w\<lparr>runOnce := runOnce w @ [t]\<rparr>)"

definition logCall :: "adapter_call \<Rightarrow> world \<Rightarrow> world" where
  "logCall c w = w\<lparr>adapterLog := adapterLog w @ [c]\<rparr>"

section \<open>The store's methods\<close>

text \<open>
  \<^verbatim>\<open>modelFor\<close>: a class is returned as it is; a string key is looked up in the
  container, and the assertion "No model was found" fails when nothing is registered.
\<close>

definition modelFor :: "tykey \<Rightarrow> world \<Rightarrow> tyid outcome" where
  "modelFor key w =
     (case key of
        TClass c \<Rightarrow> Ok c
      | TKey k \<Rightarrow> (case factories w k of None \<Rightarrow> Throw NoModelFound | Some c \<Rightarrow> Ok c))"

definition adapterForType :: "tyid \<Rightarrow> world \<Rightarrow> adapter option" where
  "adapterForType ty w = adapters w ty"

text \<open>\<^verbatim>\<open>typeMapFor\<close> creates the type map on first use.\<close>

definition typeMapFor :: "tyid \<Rightarrow> world \<Rightarrow> typeMap \<times> world" where
  "typeMapFor ty w =
     (case typeMaps w ty of
        Some tm \<Rightarrow> (tm, w)
      | None \<Rightarrow> (emptyTypeMap, w\<lparr>typeMaps := (typeMaps w)(ty \<mapsto> emptyTypeMap)\<rparr>))"

text \<open>A write to the type map object of a type.\<close>

definition putTypeMap :: "tyid \<Rightarrow> typeMap \<Rightarrow> world \<Rightarrow> world" where
  "putTypeMap ty tm w = w\<lparr>typeMaps := (typeMaps w)(ty \<mapsto> tm)\<rparr>"

text \<open>
  \<^verbatim>\<open>buildRecord(type, id)\<close>. The assertion is \<^verbatim>\<open>!id || !idToRecord[id]\<close>; the record
  is indexed under \<^verbatim>\<open>if (id)\<close> and always pushed on \<^verbatim>\<open>typeMap.records\<close>. Every call
  in \<^verbatim>\<open>store.js\<close> passes two arguments, so \<^verbatim>\<open>data\<close> is \<^verbatim>\<open>undefined\<close>.
\<close>

definition buildRecord :: "tyid \<Rightarrow> jsval \<Rightarrow> world \<Rightarrow> ref outcome \<times> world" where
  "buildRecord ty i w =
     (let (tm, w1) = typeMapFor ty w in
      if truthy i \<and> idToRecord tm (toStr i) \<noteq> None then (Throw IdAlreadyUsed, w1)
      else
        let r = length (models w1);
            w2 = w1\<lparr>models := models w1 @ [\<lparr>mtype = ty, mid = i, mstate = Empty\<rparr>]\<rparr>;
            tm1 = (if truthy i then tm\<lparr>idToRecord := (idToRecord tm)(toStr i \<mapsto> r)\<rparr> else tm);
            tm2 = tm1\<lparr>records := records tm1 @ [r]\<rparr>
        in (Ok r, putTypeMap ty tm2 w2))"

definition hasRecordForId :: "tyid \<Rightarrow> jsval \<Rightarrow> world \<Rightarrow> bool \<times> world" where
  "hasRecordForId ty i w =
     (let i' = coerceId i; (tm, w1) = typeMapFor ty w
      in (idToRecord tm (toStr i') \<noteq> None, w1))"

definition recordForId :: "tykey \<Rightarrow> jsval \<Rightarrow> world \<Rightarrow> ref outcome \<times> world" where
  "recordForId key i w =
     (case modelFor key w of
        Throw e \<Rightarrow> (Throw e, w)
      | Ok ty \<Rightarrow>
          let i' = coerceId i; (tm, w1) = typeMapFor ty w in
          (case idToRecord tm (toStr i') of
             Some r \<Rightarrow> (Ok r, w1)
           | None \<Rightarrow> buildRecord ty i' w1))"

text \<open>\<^verbatim>\<open>getById\<close> hands \<^verbatim>\<open>buildRecord\<close> the id as it came, not the coerced one.\<close>

definition getById :: "tykey \<Rightarrow> jsval \<Rightarrow> world \<Rightarrow> ref outcome \<times> world" where
  "getById key i w =
     (case modelFor key w of
        Throw e \<Rightarrow> (Throw e, w)
      | Ok ty \<Rightarrow>
          let (has, w1) = hasRecordForId ty i w in
          if has then recordForId (TClass ty) i w1 else buildRecord ty i w1)"



text \<open>
  \<^verbatim>\<open>all\<close>: the cached array when there is one; otherwise a new \<^verbatim>\<open>DS.RecordArray\<close> with
  \<^verbatim>\<open>isLoaded: true\<close>, stored in \<^verbatim>\<open>findAllCache\<close>.
\<close>

definition all :: "tyid \<Rightarrow> world \<Rightarrow> ref \<times> world" where
  "all ty w =
     (let (tm, w1) = typeMapFor ty w in
      case findAllCache tm of
        Some a \<Rightarrow> (a, w1)
      | None \<Rightarrow>
          let a = length (arrays w1);
              w2 = w1\<lparr>arrays := arrays w1 @
                     [\<lparr>atype = ty, akind = RecordArray, isLoaded = True, isUpdating = False,
                       loadingRecordsCount = 0\<rparr>]\<rparr>
          in (a, putTypeMap ty (tm\<lparr>findAllCache := Some a\<rparr>) w2))"

definition setUpdating :: "ref \<Rightarrow> bool \<Rightarrow> world \<Rightarrow> world" where
  "setUpdating a b w = w\<lparr>arrays := (arrays w)[a := (arrays w ! a)\<lparr>isUpdating := b\<rparr>]\<rparr>"

text \<open>
  \<^verbatim>\<open>fetchAll\<close>: reads \<^verbatim>\<open>metadata.since\<close>, makes a deferred, sets \<^verbatim>\<open>isUpdating\<close> on the
  array, asserts on the adapter, calls \<^verbatim>\<open>adapter._findAll\<close> and returns the promise.
\<close>

definition fetchAll :: "tyid \<Rightarrow> ref \<Rightarrow> world \<Rightarrow> handle outcome \<times> world" where
  "fetchAll ty a w =
     (let (tm, w1) = typeMapFor ty w;
          sinceToken = (case metadata tm ''since'' of None \<Rightarrow> JUndefined | Some v \<Rightarrow> v);
          (p, w2) = rsvpDefer w1 in
      if \<not> a < length (arrays w2) then (Throw TypeError, w2)
      else
        let w3 = setUpdating a True w2 in
        (case adapterForType ty w3 of
           None \<Rightarrow> (Throw NoAdapter, w3)
         | Some ad \<Rightarrow>
             if \<not> hasFindAll ad then (Throw MissingHook, w3)
             else (Ok (PromiseRef p), logCall (AFindAll ty sinceToken p) w3)))"

definition findAll :: "tykey \<Rightarrow> world \<Rightarrow> handle outcome \<times> world" where
  "findAll key w =
     (case modelFor key w of
        Throw e \<Rightarrow> (Throw e, w)
      | Ok ty \<Rightarrow> let (a, w1) = all ty w in fetchAll ty a w1)"

definition metaForType :: "tyid \<Rightarrow> string \<Rightarrow> jsval \<Rightarrow> world \<Rightarrow> world" where
  "metaForType ty property d w =
     (let (tm, w1) = typeMapFor ty w
      in putTypeMap ty (tm\<lparr>metadata := (metadata tm)(property \<mapsto> d)\<rparr>) w1)"

text \<open>\<^verbatim>\<open>didUpdateAll\<close>: \<^verbatim>\<open>set(findAllCache, 'isUpdating', false)\<close>.\<close>

definition didUpdateAll :: "tyid \<Rightarrow> world \<Rightarrow> unit outcome \<times> world" where
  "didUpdateAll ty w =
     (let (tm, w1) = typeMapFor ty w in
      case findAllCache tm of
        None \<Rightarrow> (Throw TypeError, w1)
      | Some a \<Rightarrow> (Ok (), setUpdating a False w1))"



text \<open>
  \<^verbatim>\<open>fetchMany\<close> groups the records by \<^verbatim>\<open>record.constructor\<close> in an
  \<^verbatim>\<open>Ember.MapWithDefault\<close>, which keeps its keys in the order they first came.
\<close>

fun insertGroup :: "tyid \<Rightarrow> ref \<Rightarrow> (tyid \<times> ref list) list \<Rightarrow> (tyid \<times> ref list) list" where
  "insertGroup ty r [] = [(ty, [r])]"
| "insertGroup ty r ((t, rs) # gs) =
     (if t = ty then (t, rs @ [r]) # gs else (t, rs) # insertGroup ty r gs)"

fun groupByType :: "world \<Rightarrow> ref list \<Rightarrow> (tyid \<times> ref list) list \<Rightarrow> (tyid \<times> ref list) list" where
  "groupByType w [] gs = gs"
| "groupByType w (r # rs) gs = groupByType w rs (insertGroup (mtype (models w ! r)) r gs)"

text \<open>
  The records a grouping holds, and the property that every group holds records of
  its own type.
\<close>

definition members :: "(tyid \<times> ref list) list \<Rightarrow> ref set" where
  "members gs = (\<Union>g \<in> set gs. set (snd g))"

definition grouped :: "world \<Rightarrow> (tyid \<times> ref list) list \<Rightarrow> bool" where
  "grouped w gs = (\<forall>g \<in> set gs. \<forall>r \<in> set (snd g). mtype (models w ! r) = fst g)"

text \<open>
  The second loop of \<^verbatim>\<open>fetchMany\<close>: per type, the ids of its records, the two
  assertions on the adapter, and \<^verbatim>\<open>adapter._findMany\<close>.
\<close>

fun findManyGroups :: "(tyid \<times> ref list) list \<Rightarrow> ref \<Rightarrow> ref \<Rightarrow> world \<Rightarrow> unit outcome \<times> world" where
  "findManyGroups [] owner resolver w = (Ok (), w)"
| "findManyGroups ((ty, rs) # gs) owner resolver w =
     (case adapterForType ty w of
        None \<Rightarrow> (Throw NoAdapter, w)
      | Some ad \<Rightarrow>
          if \<not> hasFindMany ad then (Throw MissingHook, w)
          else findManyGroups gs owner resolver
                 (logCall (AFindMany ty (map (\<lambda>r. mid (models w ! r)) rs) owner resolver) w))"

text \<open>
  \<^verbatim>\<open>fetchMany(records, owner, resolver)\<close> returns nothing. With no records it returns
  at once (\<^verbatim>\<open>if (!records.length) { return; }\<close>). A list entry that is not a record
  is a \<open>TypeError\<close>.
\<close>

definition fetchMany :: "ref list \<Rightarrow> ref \<Rightarrow> ref \<Rightarrow> world \<Rightarrow> unit outcome \<times> world" where
  "fetchMany recs owner resolver w =
     (if recs = [] then (Ok (), w)
      else if \<not> list_all (\<lambda>r. r < length (models w)) recs then (Throw TypeError, w)
      else findManyGroups (groupByType w recs []) owner resolver w)"

fun loadingAll :: "ref list \<Rightarrow> world \<Rightarrow> world" where
  "loadingAll [] w = w"
| "loadingAll (r # rs) w = loadingAll rs (setState r loadingData w)"

definition setArray :: "ref \<Rightarrow> (recordArray \<Rightarrow> recordArray) \<Rightarrow> world \<Rightarrow> world" where
  "setArray a f w = w\<lparr>arrays := (arrays w)[a := f (arrays w ! a)]\<rparr>"

text \<open>
  \<^verbatim>\<open>findMany(owner, records, type, resolver)\<close>: the records whose \<^verbatim>\<open>isEmpty\<close> is true
  are set loading and handed to \<^verbatim>\<open>fetchMany\<close>; with none of them the many-array is
  marked loaded and its \<^verbatim>\<open>didLoad\<close> scheduled. The many-array is returned.
  Modelled from the spec: \<^verbatim>\<open>recordArrayManager.createManyArray\<close> "builds a to-many
  relationship's backing collection", here a new array object that is not yet loaded.
\<close>

definition findMany :: "ref \<Rightarrow> ref list \<Rightarrow> tykey \<Rightarrow> ref \<Rightarrow> world \<Rightarrow> ref outcome \<times> world" where
  "findMany owner recs key resolver w =
     (case modelFor key w of
        Throw e \<Rightarrow> (Throw e, w)
      | Ok ty \<Rightarrow>
          if \<not> list_all (\<lambda>r. r < length (models w)) recs then (Throw TypeError, w)
          else
            let unloadedRecords = filter (\<lambda>r. isEmpty (mstate (models w ! r))) recs;
                manyArray = length (arrays w);
                w1 = w\<lparr>arrays := arrays w @
                       [\<lparr>atype = ty, akind = ManyArray recs, isLoaded = False, isUpdating = False,
                         loadingRecordsCount = 0\<rparr>]\<rparr>;
                w2 = loadingAll unloadedRecords w1;
                w3 = setArray manyArray (\<lambda>a. a\<lparr>loadingRecordsCount := length unloadedRecords\<rparr>) w2
            in
              if unloadedRecords \<noteq> [] then
                (case fetchMany unloadedRecords owner resolver w3 of
                   (Throw e, w4) \<Rightarrow> (Throw e, w4)
                 | (Ok u, w4) \<Rightarrow> (Ok manyArray, w4))
              else
                (Ok manyArray,
                 once (TriggerDidLoad manyArray) (setArray manyArray (\<lambda>a. a\<lparr>isLoaded := True\<rparr>) w3)))"

text \<open>
  \<^verbatim>\<open>scheduleSave(record, resolver)\<close>: \<^verbatim>\<open>record.adapterWillCommit()\<close>, a push on
  \<^verbatim>\<open>_pendingSave\<close>, and \<^verbatim>\<open>once(this, 'flushPendingSave')\<close>.
\<close>

definition scheduleSave :: "ref \<Rightarrow> ref \<Rightarrow> world \<Rightarrow> unit outcome \<times> world" where
  "scheduleSave r resolver w =
     (case getModel w r of
        None \<Rightarrow> (Throw TypeError, w)
      | Some m \<Rightarrow>
          let w1 = setState r adapterWillCommit w;
              w2 = w1\<lparr>pendingSave := pendingSave w1 @ [(r, resolver)]\<rparr>
          in (Ok (), once FlushPendingSave w2))"

fun scheduleAll :: "(ref \<times> ref) list \<Rightarrow> world \<Rightarrow> unit outcome \<times> world" where
  "scheduleAll [] w = (Ok (), w)"
| "scheduleAll ((r, resolver) # es) w =
     (case scheduleSave r resolver w of
        (Throw e, w1) \<Rightarrow> (Throw e, w1)
      | (Ok u, w1) \<Rightarrow> scheduleAll es w1)"

text \<open>
  The adapter's commit hooks run user code before they return. Of that code the model
  keeps what matters to the pending-save queue: the \<^verbatim>\<open>scheduleSave\<close> calls a hook makes
  on the store while it runs, as a function of the call it received. An adapter whose
  hooks never call back is \<open>\<lambda>c. []\<close>.
\<close>

type_synonym commit_hook = "adapter_call \<Rightarrow> (ref \<times> ref) list"

definition commitCall :: "model \<Rightarrow> ref \<Rightarrow> ref \<Rightarrow> adapter_call" where
  "commitCall m r resolver =
     (if isNew (mstate m) then ACreateRecord (mtype m) r resolver
      else if isDeleted (mstate m) then ADeleteRecord (mtype m) r resolver
      else AUpdateRecord (mtype m) r resolver)"

text \<open>
  The loop of \<^verbatim>\<open>flushPendingSave\<close>. \<^verbatim>\<open>forEach\<close> fixes the range of the array it walks
  before the first callback: entries pushed while it runs are not visited. An
  adapter that is \<^verbatim>\<open>undefined\<close> makes \<^verbatim>\<open>adapter._createRecord\<close> a \<open>TypeError\<close>.
\<close>

fun flushEntries :: "commit_hook \<Rightarrow> (ref \<times> ref) list \<Rightarrow> world \<Rightarrow> unit outcome \<times> world" where
  "flushEntries hook [] w = (Ok (), w)"
| "flushEntries hook ((r, resolver) # es) w =
     (case getModel w r of
        None \<Rightarrow> (Throw TypeError, w)
      | Some m \<Rightarrow>
          (case adapterForType (mtype m) w of
             None \<Rightarrow> (Throw TypeError, w)
           | Some ad \<Rightarrow>
               (case scheduleAll (hook (commitCall m r resolver))
                       (logCall (commitCall m r resolver) w) of
                  (Throw e, w1) \<Rightarrow> (Throw e, w1)
                | (Ok u, w1) \<Rightarrow> flushEntries hook es w1)))"

text \<open>
  \<^verbatim>\<open>flushPendingSave\<close>: the loop over \<^verbatim>\<open>this._pendingSave\<close>, then
  \<^verbatim>\<open>this._pendingSave = []\<close>. An exception in the loop leaves the queue as it is.
\<close>

definition flushPendingSave :: "commit_hook \<Rightarrow> world \<Rightarrow> unit outcome \<times> world" where
  "flushPendingSave hook w =
     (case flushEntries hook (pendingSave w) w of
        (Throw e, w1) \<Rightarrow> (Throw e, w1)
      | (Ok u, w1) \<Rightarrow> (Ok (), w1\<lparr>pendingSave := []\<rparr>))"

text \<open>
  An entry of the queue that the flush can send on: its record exists and the type
  of the record has an adapter.
\<close>

definition dispatchable :: "world \<Rightarrow> ref \<times> ref \<Rightarrow> bool" where
  "dispatchable w e = (fst e < length (models w) \<and> adapterForType (mtype (models w ! fst e)) w \<noteq> None)"

text \<open>
  \<^verbatim>\<open>updateId(record, data)\<close>, given \<^verbatim>\<open>data.id\<close>: the assertion
  \<^verbatim>\<open>oldId === null || id === oldId\<close>, then \<^verbatim>\<open>idToRecord[id] = record\<close> and
  \<^verbatim>\<open>set(record, 'id', id)\<close>.
\<close>

definition updateId :: "ref \<Rightarrow> jsval \<Rightarrow> world \<Rightarrow> unit outcome \<times> world" where
  "updateId r dataId w =
     (case getModel w r of
        None \<Rightarrow> (Throw TypeError, w)
      | Some m \<Rightarrow>
          let oldId = mid m; i = coerceId dataId in
          if oldId \<noteq> JNull \<and> i \<noteq> oldId then (Throw IdentityConflict, w)
          else
            let (tm, w1) = typeMapFor (mtype m) w;
                w2 = putTypeMap (mtype m) (tm\<lparr>idToRecord := (idToRecord tm)(toStr i \<mapsto> r)\<rparr>) w1
            in (Ok (), setId r i w2))"

text \<open>
  \<^verbatim>\<open>didSaveRecord(record, data)\<close>: \<open>None\<close> is a call without data, \<open>Some i\<close> a call
  with a data hash whose \<^verbatim>\<open>id\<close> property is \<open>i\<close>.
\<close>

definition didSaveRecord :: "ref \<Rightarrow> jsval option \<Rightarrow> world \<Rightarrow> unit outcome \<times> world" where
  "didSaveRecord r d w =
     (case d of
        None \<Rightarrow>
          (case getModel w r of
             None \<Rightarrow> (Throw TypeError, w)
           | Some m \<Rightarrow> (Ok (), setState r adapterDidCommit w))
      | Some dataId \<Rightarrow>
          (case updateId r dataId w of
             (Throw e, w1) \<Rightarrow> (Throw e, w1)
           | (Ok u, w1) \<Rightarrow> (Ok (), setState r adapterDidCommit w1)))"

text \<open>
  \<^verbatim>\<open>didReceiveId(record, id)\<close>: the assertion \<^verbatim>\<open>oldId === undefined || id === oldId\<close>,
  then \<^verbatim>\<open>typeMap.idToCid[id] = clientId\<close>. No type map has an \<^verbatim>\<open>idToCid\<close> property
  (\<^verbatim>\<open>typeMapFor\<close> is the only place a type map is made), so the assignment reads a
  property of \<^verbatim>\<open>undefined\<close>: a \<open>TypeError\<close>.
\<close>

definition didReceiveId :: "ref \<Rightarrow> jsval \<Rightarrow> world \<Rightarrow> unit outcome \<times> world" where
  "didReceiveId r i w =
     (case getModel w r of
        None \<Rightarrow> (Throw TypeError, w)
      | Some m \<Rightarrow>
          let (tm, w1) = typeMapFor (mtype m) w;
              oldId = mid m in
          if oldId \<noteq> JUndefined \<and> i \<noteq> oldId then (Throw IdentityConflict, w1)
          else (Throw TypeError, w1))"

text \<open>
  \<^verbatim>\<open>dematerializeRecord\<close>: under \<^verbatim>\<open>if (id)\<close> the slot \<^verbatim>\<open>idToRecord[id]\<close> is deleted;
  then \<^verbatim>\<open>records.splice(indexOf(records, record), 1)\<close>, which with the index \<open>-1\<close> of
  a record that is not in the list removes the last entry.
\<close>

definition dematerializeRecord :: "ref \<Rightarrow> world \<Rightarrow> unit outcome \<times> world" where
  "dematerializeRecord r w =
     (case getModel w r of
        None \<Rightarrow> (Throw TypeError, w)
      | Some m \<Rightarrow>
          let (tm, w1) = typeMapFor (mtype m) w;
              tm1 = (if truthy (mid m) then tm\<lparr>idToRecord := (idToRecord tm)(toStr (mid m) := None)\<rparr>
                     else tm);
              tm2 = tm1\<lparr>records := (if r \<in> set (records tm1) then remove1 r (records tm1)
                                       else butlast (records tm1))\<rparr>
          in (Ok (), putTypeMap (mtype m) tm2 w1))"

text \<open>\<^verbatim>\<open>_generateId\<close>: the adapter's \<^verbatim>\<open>generateIdForRecord\<close> when it has one, else \<^verbatim>\<open>null\<close>.\<close>

definition generateId :: "tyid \<Rightarrow> world \<Rightarrow> jsval" where
  "generateId ty w =
     (case adapterForType ty w of
        None \<Rightarrow> JNull
      | Some ad \<Rightarrow> (case generateIdForRecord ad of None \<Rightarrow> JNull | Some v \<Rightarrow> v))"

text \<open>
  \<^verbatim>\<open>createRecord(type, properties)\<close>, given \<^verbatim>\<open>properties.id\<close>: an id that
  \<^verbatim>\<open>isNone\<close> is replaced by a generated one, the id is coerced, the record is built
  and \<^verbatim>\<open>loadedData()\<close> is called; \<^verbatim>\<open>setProperties\<close> writes the same id back.
\<close>

definition createRecord :: "tykey \<Rightarrow> jsval \<Rightarrow> world \<Rightarrow> ref outcome \<times> world" where
  "createRecord key propId w =
     (case modelFor key w of
        Throw e \<Rightarrow> (Throw e, w)
      | Ok ty \<Rightarrow>
          let i = coerceId (if looseEqNull propId then generateId ty w else propId) in
          (case buildRecord ty i w of
             (Throw e, w1) \<Rightarrow> (Throw e, w1)
           | (Ok r, w1) \<Rightarrow> (Ok r, setId r i (setState r loadedData w1))))"

section \<open>A store to run the methods on\<close>

text \<open>An adapter with every hook and no id generator, serving every type.\<close>

definition restAdapter :: adapter where
  "restAdapter =
     \<lparr>hasFind = True, hasFindMany = True, hasFindAll = True, hasFindQuery = True,
      generateIdForRecord = None\<rparr>"

definition store0 :: world where
  "store0 = init Map.empty (\<lambda>ty. Some restAdapter)"


text \<open>The store after one \<open>findAll\<close> of type 0: its request is outstanding.\<close>

definition storeUpdating :: world where
  "storeUpdating = snd (findAll (TClass 0) store0)"

text \<open>
  The store after two \<open>createRecord\<close> calls without an id (the records 0 and 1 of
  type 0, both new) and two deferreds (the resolvers 0 and 1).
\<close>

definition storeTwoNew :: world where
  "storeTwoNew =
     snd (rsvpDefer (snd (rsvpDefer
       (snd (createRecord (TClass 0) JUndefined
          (snd (createRecord (TClass 0) JUndefined store0)))))))"

text \<open>
  An adapter whose \<^verbatim>\<open>createRecord\<close> hook, called for record 0, saves record 1 with
  resolver 1 before it returns.
\<close>

definition savesSibling :: commit_hook where
  "savesSibling c =
     (case c of
        ACreateRecord ty r p \<Rightarrow> (if r = 0 then [(1, 1)] else [])
      | _ \<Rightarrow> [])"

text \<open>
  The store of \<open>storeTwoNew\<close> after a lookup of the id "7" of type 0: record 2 is an
  empty record.
\<close>

definition storeLoading :: world where
  "storeLoading = snd (getById (TClass 0) (JStr ''7'') storeTwoNew)"

section \<open>Identifier coercion\<close>


text \<open>
  Claim C7. \<open>coerceId\<close> sends \<^verbatim>\<open>null\<close> and \<^verbatim>\<open>undefined\<close>, and nothing else, to
  \<^verbatim>\<open>null\<close>; every other value goes to its string form. In particular the number
  1 and the string "1" coerce to the same identifier, \<^verbatim>\<open>null\<close> and \<^verbatim>\<open>undefined\<close>
  both coerce to \<^verbatim>\<open>null\<close>, and the number 0 coerces to the string "0", not to
  \<^verbatim>\<open>null\<close>; nor do the empty string and \<^verbatim>\<open>false\<close> coerce to \<^verbatim>\<open>null\<close>.
\<close>

theorem coerceId_canonical:
  "(coerceId v = JNull) = (v = JNull \<or> v = JUndefined)
   \<and> coerceId v = (if v = JNull \<or> v = JUndefined then JNull else JStr (toStr v))
   \<and> coerceId (JNum 1) = coerceId (JStr ''1'')
   \<and> coerceId (JNum 1) = JStr ''1''
   \<and> coerceId JNull = JNull
   \<and> coerceId JUndefined = JNull
   \<and> coerceId (JNum 0) = JStr ''0''
   \<and> coerceId (JNum 0) \<noteq> JNull
   \<and> coerceId (JNum 42) = JStr ''42''
   \<and> coerceId (JNum (- 7)) = JStr ''-7''
   \<and> coerceId (JStr []) = JStr []
   \<and> coerceId (JBool False) = JStr ''false''"
  by (simp add: coerceId_def looseEqNull_def show_int_def show_nat.simps digit_char_def)

section \<open>The identity map\<close>

lemmas evals = store0_def init_def restAdapter_def recordForId_def getById_def hasRecordForId_def
  buildRecord_def typeMapFor_def putTypeMap_def modelFor_def coerceId_def looseEqNull_def
  emptyTypeMap_def Let_def getModel_def dematerializeRecord_def


lemma typeMapFor_result:
  "typeMapFor ty w = (tm, w1) \<Longrightarrow>
     typeMaps w1 ty = Some tm \<and> factories w1 = factories w \<and> models w1 = models w"
  by (auto simp: typeMapFor_def split: option.splits)

lemma typeMapFor_Some: "typeMaps w ty = Some tm \<Longrightarrow> typeMapFor ty w = (tm, w)"
  by (simp add: typeMapFor_def)















section \<open>Lookups that materialize a record\<close>






section \<open>A second find while the first is outstanding\<close>







section \<open>Finding all records of a type\<close>



lemma fetchAll_ok:
  assumes "adapterForType ty w = Some ad" "hasFindAll ad" "a < length (arrays w)"
    and "typeMapFor ty w = (tm, w')"
  shows "fetchAll ty a w =
           (Ok (PromiseRef (length (promises w))),
            logCall (AFindAll ty (case metadata tm ''since'' of None \<Rightarrow> JUndefined | Some v \<Rightarrow> v)
                       (length (promises w)))
              (setUpdating a True (w'\<lparr>promises := promises w' @ [Pending]\<rparr>)))"
proof -
  have "adapters w' = adapters w" "promises w' = promises w" "arrays w' = arrays w"
    using assms(4) by (auto simp: typeMapFor_def split: option.splits)
  with assms show ?thesis
    by (simp add: fetchAll_def rsvpDefer_def adapterForType_def setUpdating_def)
qed

lemma fetchAll_effect:
  assumes "adapterForType ty w = Some ad" "hasFindAll ad" "a < length (arrays w)"
    and "typeMapFor ty w = (tm, w')"
  shows "\<exists>w1. fetchAll ty a w = (Ok (PromiseRef (length (promises w))), w1)
           \<and> adapterLog w1 = adapterLog w @
               [AFindAll ty (case metadata tm ''since'' of None \<Rightarrow> JUndefined | Some v \<Rightarrow> v)
                  (length (promises w))]
           \<and> promises w1 = promises w @ [Pending]
           \<and> isUpdating (arrays w1 ! a) \<and> length (arrays w1) = length (arrays w)
           \<and> adapters w1 = adapters w \<and> typeMaps w1 = typeMaps w' \<and> typeMaps w1 ty = Some tm"
proof -
  have "adapterLog w' = adapterLog w" "promises w' = promises w" "arrays w' = arrays w"
    "adapters w' = adapters w" "typeMaps w' ty = Some tm"
    using assms(4) by (auto simp: typeMapFor_def split: option.splits)
  with fetchAll_ok [OF assms] assms(3) show ?thesis
    by (simp add: logCall_def setUpdating_def)
qed

text \<open>
  Claim C6, as the code has it. Take a type whose adapter implements \<^verbatim>\<open>findAll\<close>
  and an existing record array. Every \<open>fetchAll\<close> sets \<open>isUpdating\<close> on the array
  and sends one \<open>findAll\<close> request with the type's \<open>since\<close> token; the flag is not
  read. A second \<open>fetchAll\<close>, made while the flag is still set, sends a second
  request. \<open>didUpdateAll\<close> clears the flag of the type's cached "all" array.
\<close>

theorem fetchAll_always_requests:
  assumes "adapterForType ty w = Some ad" and "hasFindAll ad" and "a < length (arrays w)"
    and "typeMapFor ty w = (tm, w')"
    and "since = (case metadata tm ''since'' of None \<Rightarrow> JUndefined | Some v \<Rightarrow> v)"
  shows "\<exists>p w1 p2 w2.
           fetchAll ty a w = (Ok (PromiseRef p), w1)
         \<and> adapterLog w1 = adapterLog w @ [AFindAll ty since p]
         \<and> isUpdating (arrays w1 ! a)
         \<and> fetchAll ty a w1 = (Ok (PromiseRef p2), w2)
         \<and> adapterLog w2 = adapterLog w @ [AFindAll ty since p, AFindAll ty since p2]
         \<and> p \<noteq> p2
         \<and> isUpdating (arrays w2 ! a)
         \<and> (findAllCache tm = Some a \<longrightarrow>
              (\<exists>w3. didUpdateAll ty w2 = (Ok (), w3) \<and> \<not> isUpdating (arrays w3 ! a)
                    \<and> adapterLog w3 = adapterLog w2))"
proof -
  from fetchAll_effect [OF assms(1-4)] obtain w1 where
    1: "fetchAll ty a w = (Ok (PromiseRef (length (promises w))), w1)"
       "adapterLog w1 = adapterLog w @ [AFindAll ty since (length (promises w))]"
       "promises w1 = promises w @ [Pending]"
       "isUpdating (arrays w1 ! a)" "length (arrays w1) = length (arrays w)"
       "adapters w1 = adapters w" "typeMaps w1 ty = Some tm"
    using assms(5) by auto
  have a1: "adapterForType ty w1 = Some ad" "a < length (arrays w1)"
    using 1 assms by (simp_all add: adapterForType_def)
  have t1: "typeMapFor ty w1 = (tm, w1)" using 1 by (simp add: typeMapFor_Some)
  from fetchAll_effect [OF a1(1) assms(2) a1(2) t1] obtain w2 where
    2: "fetchAll ty a w1 = (Ok (PromiseRef (length (promises w1))), w2)"
       "adapterLog w2 = adapterLog w1 @ [AFindAll ty since (length (promises w1))]"
       "isUpdating (arrays w2 ! a)" "length (arrays w2) = length (arrays w1)"
       "typeMaps w2 ty = Some tm"
    using assms(5) by auto
  have 3: "findAllCache tm = Some a \<longrightarrow>
              (\<exists>w3. didUpdateAll ty w2 = (Ok (), w3) \<and> \<not> isUpdating (arrays w3 ! a)
                    \<and> adapterLog w3 = adapterLog w2)"
    using 2 1 assms(3) by (simp add: didUpdateAll_def typeMapFor_Some setUpdating_def)
  from 1 2 3 show ?thesis by simp
qed

text \<open>
  The claim as stated has a second \<open>fetchAll\<close> send no request while the first is
  outstanding. In \<open>storeUpdating\<close>, the store after one \<open>findAll\<close> of type 0, the
  "all" array has \<open>isUpdating\<close> set and one request is logged; \<open>fetchAll\<close> on it logs
  a second one.
\<close>

theorem fetchAll_second_request:
  "isUpdating (arrays storeUpdating ! 0)
   \<and> adapterLog storeUpdating = [AFindAll 0 JUndefined 0]
   \<and> fst (fetchAll 0 0 storeUpdating) = Ok (PromiseRef 1)
   \<and> adapterLog (snd (fetchAll 0 0 storeUpdating))
       = [AFindAll 0 JUndefined 0, AFindAll 0 JUndefined 1]"
  by (simp add: storeUpdating_def evals findAll_def all_def fetchAll_def rsvpDefer_def
        setUpdating_def logCall_def adapterForType_def)

text \<open>The theorem of claim C6 at the "all" array of type 0, its flag already set.\<close>

theorem fetchAll_always_requests_witness:
  "adapterForType 0 storeUpdating = Some restAdapter \<and> hasFindAll restAdapter
   \<and> 0 < length (arrays storeUpdating)
   \<and> typeMapFor 0 storeUpdating = (the (typeMaps storeUpdating 0), storeUpdating)
   \<and> findAllCache (the (typeMaps storeUpdating 0)) = Some 0
   \<and> isUpdating (arrays storeUpdating ! 0)
   \<and> (\<exists>p w1 p2 w2 w3.
           fetchAll 0 0 storeUpdating = (Ok (PromiseRef p), w1)
         \<and> fetchAll 0 0 w1 = (Ok (PromiseRef p2), w2)
         \<and> adapterLog w2 = adapterLog storeUpdating @ [AFindAll 0 JUndefined p, AFindAll 0 JUndefined p2]
         \<and> didUpdateAll 0 w2 = (Ok (), w3) \<and> \<not> isUpdating (arrays w3 ! 0))"
proof -
  have a: "adapterForType 0 storeUpdating = Some restAdapter"
    by (simp add: storeUpdating_def evals findAll_def all_def fetchAll_def rsvpDefer_def
        setUpdating_def logCall_def adapterForType_def)
  have b: "hasFindAll restAdapter" by (simp add: restAdapter_def)
  have c: "0 < length (arrays storeUpdating)"
    by (simp add: storeUpdating_def evals findAll_def all_def fetchAll_def rsvpDefer_def
        setUpdating_def logCall_def adapterForType_def)
  have d: "typeMapFor 0 storeUpdating = (the (typeMaps storeUpdating 0), storeUpdating)"
    by (simp add: storeUpdating_def evals findAll_def all_def fetchAll_def rsvpDefer_def
        setUpdating_def logCall_def adapterForType_def)
  have e: "findAllCache (the (typeMaps storeUpdating 0)) = Some 0"
     and e': "JUndefined = (case metadata (the (typeMaps storeUpdating 0)) ''since'' of
                 None \<Rightarrow> JUndefined | Some v \<Rightarrow> v)"
     and f: "isUpdating (arrays storeUpdating ! 0)"
    by (simp_all add: storeUpdating_def evals findAll_def all_def fetchAll_def rsvpDefer_def
        setUpdating_def logCall_def adapterForType_def)
  from fetchAll_always_requests [OF a b c d e'] e
  have "\<exists>p w1 p2 w2 w3.
           fetchAll 0 0 storeUpdating = (Ok (PromiseRef p), w1)
         \<and> fetchAll 0 0 w1 = (Ok (PromiseRef p2), w2)
         \<and> adapterLog w2 = adapterLog storeUpdating @ [AFindAll 0 JUndefined p, AFindAll 0 JUndefined p2]
         \<and> didUpdateAll 0 w2 = (Ok (), w3) \<and> \<not> isUpdating (arrays w3 ! 0)"
    by metis
  with a b c d e f show ?thesis by (intro conjI)
qed




section \<open>The pending-save queue\<close>

lemma scheduleSave_ok:
  "getModel w r = Some m \<Longrightarrow>
   scheduleSave r p w =
     (Ok (), once FlushPendingSave
               ((setState r adapterWillCommit w)\<lparr>pendingSave := pendingSave w @ [(r, p)]\<rparr>))"
  by (simp add: scheduleSave_def setState_def)

lemma scheduleSave_effect:
  assumes "getModel w r = Some m"
  shows "\<exists>w1. scheduleSave r p w = (Ok (), w1) \<and> pendingSave w1 = pendingSave w @ [(r, p)]
           \<and> adapterLog w1 = adapterLog w \<and> adapters w1 = adapters w
           \<and> length (models w1) = length (models w)
           \<and> (\<forall>r'. mtype (models w1 ! r') = mtype (models w ! r'))
           \<and> getModel w1 r = Some (m\<lparr>mstate := adapterWillCommit (mstate m)\<rparr>)
           \<and> FlushPendingSave \<in> set (runOnce w1)"
proof -
  from assms have lt: "r < length (models w)" and m: "models w ! r = m"
    by (auto simp: getModel_def split: if_splits)
  have "\<And>r'. mtype (((models w)[r := (models w ! r)\<lparr>mstate := adapterWillCommit (mstate (models w ! r))\<rparr>]) ! r')
          = mtype (models w ! r')"
    by (case_tac "r' = r") (simp_all add: lt nth_list_update)
  with scheduleSave_ok [OF assms, of p] lt m show ?thesis
    by (simp add: once_def setState_def getModel_def)
qed

lemma flushEntries_quiet:
  "list_all (dispatchable w) es \<Longrightarrow>
   flushEntries (\<lambda>c. []) es w =
     (Ok (), w\<lparr>adapterLog := adapterLog w @ map (\<lambda>e. commitCall (models w ! fst e) (fst e) (snd e)) es\<rparr>)"
proof (induction es arbitrary: w)
  case Nil
  then show ?case by simp
next
  case (Cons e es)
  obtain r p where e: "e = (r, p)" by (cases e)
  from Cons.prems e have rest: "list_all (dispatchable w) es" and "dispatchable w (r, p)"
    by simp_all
  then have d: "r < length (models w)" "adapterForType (mtype (models w ! r)) w \<noteq> None"
    by (simp_all add: dispatchable_def)
  let ?w1 = "logCall (commitCall (models w ! r) r p) w"
  have "dispatchable ?w1 = dispatchable w"
    by (simp add: dispatchable_def logCall_def adapterForType_def fun_eq_iff)
  with rest have "list_all (dispatchable ?w1) es" by simp
  from Cons.IH [OF this] d e show ?case
    by (auto simp: getModel_def logCall_def)
qed

lemma flushPendingSave_quiet:
  "list_all (dispatchable w) (pendingSave w) \<Longrightarrow>
   flushPendingSave (\<lambda>c. []) w =
     (Ok (), w\<lparr>adapterLog := adapterLog w @
                  map (\<lambda>e. commitCall (models w ! fst e) (fst e) (snd e)) (pendingSave w),
               pendingSave := []\<rparr>)"
  by (simp add: flushPendingSave_def flushEntries_quiet)


lemmas evals2 = storeTwoNew_def createRecord_def generateId_def adapterForType_def setState_def
  setId_def loadedData_def rsvpDefer_def scheduleSave_def adapterWillCommit_def once_def
  flushPendingSave_def commitCall_def isNew_def isDeleted_def logCall_def
  savesSibling_def



text \<open>
  A flush whose adapter hooks do not call back: every entry of the queue, given
  that its record exists and its type has an adapter, is sent to the adapter once,
  in queue order, and the queue is empty afterwards. An entry scheduled after the
  flush has returned is in the queue for the next flush.
\<close>

lemma flush_then_schedule:
  assumes "list_all (dispatchable w) (pendingSave w)" and "getModel w r = Some m"
  shows "\<exists>w1 w2. flushPendingSave (\<lambda>c. []) w = (Ok (), w1)
           \<and> adapterLog w1 = adapterLog w @
               map (\<lambda>e. commitCall (models w ! fst e) (fst e) (snd e)) (pendingSave w)
           \<and> pendingSave w1 = []
           \<and> scheduleSave r p w1 = (Ok (), w2) \<and> pendingSave w2 = [(r, p)]"
proof -
  let ?w1 = "w\<lparr>adapterLog := adapterLog w @
                  map (\<lambda>e. commitCall (models w ! fst e) (fst e) (snd e)) (pendingSave w),
               pendingSave := []\<rparr>"
  have "getModel ?w1 r = Some m" using assms(2) by (auto simp: getModel_def split: if_splits)
  from scheduleSave_effect [OF this, of p] flushPendingSave_quiet [OF assms(1)]
  show ?thesis by auto
qed

text \<open>
  Claim C3 at an adapter that calls back. Record 0 is queued; its create hook saves
  record 1 while the flush runs. The flush sends record 0 to the adapter, then
  resets the queue: the entry of record 1, pushed during the loop, is gone. Record 1
  is left in flight with a flush scheduled for it, the next flush finds an empty
  queue, and the adapter is never called for record 1.
\<close>

theorem flush_drops_entry_added_during_flush:
  "pendingSave (snd (scheduleSave 0 0 storeTwoNew)) = [(0, 0)]
   \<and> fst (flushPendingSave savesSibling (snd (scheduleSave 0 0 storeTwoNew))) = Ok ()
   \<and> adapterLog (snd (flushPendingSave savesSibling (snd (scheduleSave 0 0 storeTwoNew))))
       = [ACreateRecord 0 0 0]
   \<and> pendingSave (snd (flushPendingSave savesSibling (snd (scheduleSave 0 0 storeTwoNew)))) = []
   \<and> mstate (models (snd (flushPendingSave savesSibling (snd (scheduleSave 0 0 storeTwoNew)))) ! 1)
       = InFlightCreate
   \<and> FlushPendingSave
       \<in> set (runOnce (snd (flushPendingSave savesSibling (snd (scheduleSave 0 0 storeTwoNew)))))
   \<and> fst (flushPendingSave savesSibling
             (snd (flushPendingSave savesSibling (snd (scheduleSave 0 0 storeTwoNew))))) = Ok ()
   \<and> adapterLog (snd (flushPendingSave savesSibling
             (snd (flushPendingSave savesSibling (snd (scheduleSave 0 0 storeTwoNew))))))
       = [ACreateRecord 0 0 0]"
  by (simp add: evals evals2)

section \<open>Fetching many records\<close>

lemma findManyGroups_log:
  "findManyGroups gs owner res w = (Ok u, w1) \<Longrightarrow>
   adapterLog w1 = adapterLog w @
       map (\<lambda>g. AFindMany (fst g) (map (\<lambda>r. mid (models w ! r)) (snd g)) owner res) gs
   \<and> promises w1 = promises w \<and> models w1 = models w"
proof (induction gs arbitrary: w)
  case Nil
  then show ?case by simp
next
  case (Cons g gs)
  obtain ty rs where g: "g = (ty, rs)" by (cases g)
  let ?w' = "logCall (AFindMany ty (map (\<lambda>r. mid (models w ! r)) rs) owner res) w"
  from Cons.prems g have "findManyGroups gs owner res ?w' = (Ok u, w1)"
    by (auto split: option.splits if_splits)
  from Cons.IH [OF this] g show ?case by (simp add: logCall_def)
qed

lemma members_simps: "members [] = {}" "members (g # gs) = set (snd g) \<union> members gs"
  by (simp_all add: members_def)

lemma grouped_simps:
  "grouped w [] = True"
  "grouped w (g # gs) = ((\<forall>r \<in> set (snd g). mtype (models w ! r) = fst g) \<and> grouped w gs)"
  by (simp_all add: grouped_def)

lemma insertGroup_members: "members (insertGroup ty r gs) = insert r (members gs)"
proof (induction gs)
  case Nil
  show ?case by (simp add: members_simps)
next
  case (Cons g gs)
  obtain t rs where g: "g = (t, rs)" by (cases g)
  show ?case
  proof (cases "t = ty")
    case True
    with g show ?thesis by (simp add: members_simps insert_commute Un_insert_left)
  next
    case False
    with g Cons.IH show ?thesis by (simp add: members_simps)
  qed
qed

lemma insertGroup_grouped:
  "grouped w gs \<Longrightarrow> mtype (models w ! r) = ty \<Longrightarrow> grouped w (insertGroup ty r gs)"
proof (induction gs)
  case Nil
  then show ?case by (simp add: grouped_simps)
next
  case (Cons g gs)
  obtain t rs where g: "g = (t, rs)" by (cases g)
  from Cons.prems g have h: "\<forall>r \<in> set rs. mtype (models w ! r) = t" "grouped w gs"
    by (simp_all add: grouped_simps)
  show ?case
  proof (cases "t = ty")
    case True
    with g h Cons.prems(2) show ?thesis by (simp add: grouped_simps)
  next
    case False
    with g h Cons.IH [OF h(2) Cons.prems(2)] show ?thesis by (simp add: grouped_simps)
  qed
qed

lemma groupByType_members: "members (groupByType w rs gs) = set rs \<union> members gs"
  by (induction rs arbitrary: gs) (simp_all add: insertGroup_members)

lemma groupByType_grouped: "grouped w gs \<Longrightarrow> grouped w (groupByType w rs gs)"
  by (induction rs arbitrary: gs) (simp_all add: insertGroup_grouped)

lemma setState_frame:
  "length (models (setState r f w)) = length (models w)
   \<and> mtype (models (setState r f w) ! r') = mtype (models w ! r')
   \<and> mid (models (setState r f w) ! r') = mid (models w ! r')
   \<and> adapterLog (setState r f w) = adapterLog w \<and> promises (setState r f w) = promises w
   \<and> adapters (setState r f w) = adapters w \<and> arrays (setState r f w) = arrays w"
  by (cases "r < length (models w)") (auto simp: setState_def nth_list_update list_update_beyond)

lemma loadingAll_frame:
  "length (models (loadingAll rs w)) = length (models w)
   \<and> mtype (models (loadingAll rs w) ! r') = mtype (models w ! r')
   \<and> mid (models (loadingAll rs w) ! r') = mid (models w ! r')
   \<and> adapterLog (loadingAll rs w) = adapterLog w \<and> promises (loadingAll rs w) = promises w
   \<and> adapters (loadingAll rs w) = adapters w \<and> arrays (loadingAll rs w) = arrays w"
  by (induction rs arbitrary: w) (simp_all add: setState_frame)

lemma fetchMany_log:
  assumes "fetchMany recs owner res w = (Ok u, w1)"
  shows "\<exists>gs. grouped w gs \<and> members gs = set recs
           \<and> adapterLog w1 = adapterLog w @
               map (\<lambda>g. AFindMany (fst g) (map (\<lambda>r. mid (models w ! r)) (snd g)) owner res) gs
           \<and> promises w1 = promises w"
proof (cases "recs = []")
  case True
  with assms have "w1 = w" by (simp add: fetchMany_def)
  with True show ?thesis by (intro exI [of _ "[]"]) (simp add: grouped_def members_def)
next
  case False
  with assms have f: "findManyGroups (groupByType w recs []) owner res w = (Ok u, w1)"
    by (auto simp: fetchMany_def split: if_splits)
  have "grouped w (groupByType w recs [])"
    by (rule groupByType_grouped) (simp add: grouped_def)
  moreover have "members (groupByType w recs []) = set recs"
    by (simp add: groupByType_members members_simps)
  moreover note findManyGroups_log [OF f]
  ultimately show ?thesis by (intro exI [of _ "groupByType w recs []"]) simp
qed

text \<open>
  Claim C8, as the code has it. \<open>fetchMany\<close> with an empty list returns at once:
  nothing is returned, no adapter is called, and the store, the resolver's promise
  included, is as it was. \<open>findMany\<close> hands \<open>fetchMany\<close> the records whose
  \<open>isEmpty\<close> is true and no others: every adapter call it makes is a \<open>findMany\<close>
  call for the given owner and resolver whose ids are ids of empty records of the
  call's type, and every empty record's id is in the call for its type. No promise
  is resolved.
\<close>

theorem findMany_fetches_only_empty:
  "fetchMany [] owner resolver w = (Ok (), w)
   \<and> (findMany owner recs key resolver w = (Ok a, w1) \<longrightarrow>
        (\<exists>calls. adapterLog w1 = adapterLog w @ calls
           \<and> (\<forall>c \<in> set calls. \<exists>ty ids. c = AFindMany ty ids owner resolver
                  \<and> (\<forall>i \<in> set ids. \<exists>r \<in> set recs. isEmpty (mstate (models w ! r))
                         \<and> mtype (models w ! r) = ty \<and> mid (models w ! r) = i))
           \<and> (\<forall>r \<in> set recs. isEmpty (mstate (models w ! r)) \<longrightarrow>
                  (\<exists>ids. AFindMany (mtype (models w ! r)) ids owner resolver \<in> set calls
                         \<and> mid (models w ! r) \<in> set ids))
           \<and> promises w1 = promises w))"
proof (intro conjI impI)
  show "fetchMany [] owner resolver w = (Ok (), w)" by (simp add: fetchMany_def)
next
  assume fm: "findMany owner recs key resolver w = (Ok a, w1)"
  from fm obtain ty where ty: "modelFor key w = Ok ty"
    by (cases "modelFor key w") (simp_all add: findMany_def)
  from fm ty have val: "list_all (\<lambda>r. r < length (models w)) recs"
    by (cases "list_all (\<lambda>r. r < length (models w)) recs") (simp_all add: findMany_def)
  let ?un = "filter (\<lambda>r. isEmpty (mstate (models w ! r))) recs"
  let ?w1 = "w\<lparr>arrays := arrays w @
                       [\<lparr>atype = ty, akind = ManyArray recs, isLoaded = False, isUpdating = False,
                         loadingRecordsCount = 0\<rparr>]\<rparr>"
  let ?w3 = "setArray (length (arrays w)) (\<lambda>a. a\<lparr>loadingRecordsCount := length ?un\<rparr>)
               (loadingAll ?un ?w1)"
  have fr: "adapterLog ?w3 = adapterLog w" "promises ?w3 = promises w"
    "\<And>r. mtype (models ?w3 ! r) = mtype (models w ! r)"
    "\<And>r. mid (models ?w3 ! r) = mid (models w ! r)"
    by (simp_all add: setArray_def loadingAll_frame)
  from fm ty val have fm':
    "(if ?un \<noteq> [] then
        (case fetchMany ?un owner resolver ?w3 of
           (Throw e, w4) \<Rightarrow> (Throw e, w4)
         | (Ok u, w4) \<Rightarrow> (Ok (length (arrays w)), w4))
      else (Ok (length (arrays w)),
            once (TriggerDidLoad (length (arrays w)))
              (setArray (length (arrays w)) (\<lambda>a. a\<lparr>isLoaded := True\<rparr>) ?w3)))
     = (Ok a, w1)"
    by (simp add: findMany_def Let_def)
  show "\<exists>calls. adapterLog w1 = adapterLog w @ calls
           \<and> (\<forall>c \<in> set calls. \<exists>ty ids. c = AFindMany ty ids owner resolver
                  \<and> (\<forall>i \<in> set ids. \<exists>r \<in> set recs. isEmpty (mstate (models w ! r))
                         \<and> mtype (models w ! r) = ty \<and> mid (models w ! r) = i))
           \<and> (\<forall>r \<in> set recs. isEmpty (mstate (models w ! r)) \<longrightarrow>
                  (\<exists>ids. AFindMany (mtype (models w ! r)) ids owner resolver \<in> set calls
                         \<and> mid (models w ! r) \<in> set ids))
           \<and> promises w1 = promises w"
  proof (cases "?un = []")
    case True
    with fm' have "w1 = once (TriggerDidLoad (length (arrays w)))
              (setArray (length (arrays w)) (\<lambda>a. a\<lparr>isLoaded := True\<rparr>) ?w3)"
      by auto
    then have "adapterLog w1 = adapterLog ?w3 \<and> promises w1 = promises ?w3"
      by (simp add: once_def setArray_def)
    with fr have "adapterLog w1 = adapterLog w \<and> promises w1 = promises w" by simp
    moreover from True have "\<forall>r \<in> set recs. \<not> isEmpty (mstate (models w ! r))"
      by (simp add: filter_empty_conv)
    ultimately show ?thesis by (intro exI [of _ "[]"]) simp
  next
    case False
    obtain res w4 where c: "fetchMany ?un owner resolver ?w3 = (res, w4)"
      by (cases "fetchMany ?un owner resolver ?w3")
    from fm' False c obtain u where "res = Ok u" "w4 = w1"
      by (cases res) simp_all
    with c have f: "fetchMany ?un owner resolver ?w3 = (Ok u, w1)" by simp
    from fetchMany_log [OF f] obtain gs where
      gs: "grouped ?w3 gs" "members gs = set ?un"
      and lg: "adapterLog w1 = adapterLog ?w3 @
               map (\<lambda>g. AFindMany (fst g) (map (\<lambda>r. mid (models ?w3 ! r)) (snd g)) owner resolver) gs"
      and pr: "promises w1 = promises ?w3" by blast
    let ?calls = "map (\<lambda>g. AFindMany (fst g) (map (\<lambda>r. mid (models w ! r)) (snd g)) owner resolver) gs"
    have lg': "adapterLog w1 = adapterLog w @ ?calls" using lg by (simp only: fr)
    have g1: "\<And>g r. g \<in> set gs \<Longrightarrow> r \<in> set (snd g) \<Longrightarrow>
                r \<in> set recs \<and> isEmpty (mstate (models w ! r)) \<and> mtype (models w ! r) = fst g"
    proof -
      fix g r assume a: "g \<in> set gs" "r \<in> set (snd g)"
      then have "r \<in> members gs" by (auto simp: members_def)
      with gs(2) have "r \<in> set recs \<and> isEmpty (mstate (models w ! r))" by simp
      moreover from gs(1) a have "mtype (models ?w3 ! r) = fst g" by (auto simp: grouped_def)
      ultimately show "r \<in> set recs \<and> isEmpty (mstate (models w ! r)) \<and> mtype (models w ! r) = fst g"
        using fr(3) by simp
    qed
    have c1: "\<forall>c \<in> set ?calls. \<exists>ty ids. c = AFindMany ty ids owner resolver
                  \<and> (\<forall>i \<in> set ids. \<exists>r \<in> set recs. isEmpty (mstate (models w ! r))
                         \<and> mtype (models w ! r) = ty \<and> mid (models w ! r) = i)"
    proof
      fix c assume "c \<in> set ?calls"
      then obtain g where g: "g \<in> set gs"
        and c: "c = AFindMany (fst g) (map (\<lambda>r. mid (models w ! r)) (snd g)) owner resolver"
        by (auto simp: image_iff)
      have "\<forall>i \<in> set (map (\<lambda>r. mid (models w ! r)) (snd g)).
              \<exists>r \<in> set recs. isEmpty (mstate (models w ! r))
                         \<and> mtype (models w ! r) = fst g \<and> mid (models w ! r) = i"
      proof
        fix i assume "i \<in> set (map (\<lambda>r. mid (models w ! r)) (snd g))"
        then obtain r where r: "r \<in> set (snd g)" "i = mid (models w ! r)" by (auto simp: image_iff)
        from g1 [OF g r(1)] r(2)
        show "\<exists>r \<in> set recs. isEmpty (mstate (models w ! r))
                         \<and> mtype (models w ! r) = fst g \<and> mid (models w ! r) = i"
          by (intro bexI [of _ r]) simp_all
      qed
      with c show "\<exists>ty ids. c = AFindMany ty ids owner resolver
                  \<and> (\<forall>i \<in> set ids. \<exists>r \<in> set recs. isEmpty (mstate (models w ! r))
                         \<and> mtype (models w ! r) = ty \<and> mid (models w ! r) = i)"
        by (intro exI [of _ "fst g"] exI [of _ "map (\<lambda>r. mid (models w ! r)) (snd g)"] conjI)
    qed
    have c2: "\<forall>r \<in> set recs. isEmpty (mstate (models w ! r)) \<longrightarrow>
                  (\<exists>ids. AFindMany (mtype (models w ! r)) ids owner resolver \<in> set ?calls
                         \<and> mid (models w ! r) \<in> set ids)"
    proof (intro ballI impI)
      fix r assume "r \<in> set recs" "isEmpty (mstate (models w ! r))"
      then have "r \<in> members gs" using gs(2) by simp
      then obtain g where g: "g \<in> set gs" "r \<in> set (snd g)" by (auto simp: members_def)
      from g1 [OF g] have ty: "mtype (models w ! r) = fst g" by simp
      have "AFindMany (fst g) (map (\<lambda>r. mid (models w ! r)) (snd g)) owner resolver \<in> set ?calls"
        using g(1) by (simp add: image_iff) (rule bexI [of _ g], simp_all)
      moreover have "mid (models w ! r) \<in> set (map (\<lambda>r. mid (models w ! r)) (snd g))"
        using g(2) by simp
      ultimately show "\<exists>ids. AFindMany (mtype (models w ! r)) ids owner resolver \<in> set ?calls
                         \<and> mid (models w ! r) \<in> set ids"
        unfolding ty by (intro exI [of _ "map (\<lambda>r. mid (models w ! r)) (snd g)"] conjI)
    qed
    from pr fr(2) have pr': "promises w1 = promises w" by simp
    from lg' c1 c2 pr' show ?thesis by (intro exI [of _ ?calls] conjI)
  qed
qed

text \<open>
  The claim as stated has \<open>fetchMany\<close> with an empty list resolve the returned
  future at once, and has only empty records sent to the adapter. \<open>fetchMany\<close>
  returns nothing; called with no records and the resolver 0 it leaves the promise
  of that resolver pending. Called with record 0, which is new and not empty, it
  sends the id of record 0 to the adapter.
\<close>

theorem fetchMany_resolves_nothing:
  "fetchMany [] 0 0 storeTwoNew = (Ok (), storeTwoNew)
   \<and> promises storeTwoNew ! 0 = Pending
   \<and> promises (snd (fetchMany [] 0 0 storeTwoNew)) ! 0 = Pending
   \<and> \<not> isEmpty (mstate (models storeTwoNew ! 0))
   \<and> fst (fetchMany [0] 1 0 storeTwoNew) = Ok ()
   \<and> adapterLog (snd (fetchMany [0] 1 0 storeTwoNew)) = [AFindMany 0 [JNull] 1 0]"
  by (simp add: evals evals2 fetchMany_def isEmpty_def)

text \<open>
  The theorem of claim C8 in \<open>storeLoading\<close>, where record 0 is new and record 2
  is an empty record with the id "7": \<open>findMany\<close> over both sends one call, with
  the id "7" only.
\<close>

theorem findMany_fetches_only_empty_witness:
  "fst (findMany 0 [0, 2] (TClass 0) 0 storeLoading) = Ok 0
   \<and> isEmpty (mstate (models storeLoading ! 2)) \<and> \<not> isEmpty (mstate (models storeLoading ! 0))
   \<and> (\<exists>calls. adapterLog (snd (findMany 0 [0, 2] (TClass 0) 0 storeLoading))
                   = adapterLog storeLoading @ calls
           \<and> (\<forall>c \<in> set calls. \<exists>ty ids. c = AFindMany ty ids 0 0
                  \<and> (\<forall>i \<in> set ids. \<exists>r \<in> set [0, 2]. isEmpty (mstate (models storeLoading ! r))
                         \<and> mtype (models storeLoading ! r) = ty \<and> mid (models storeLoading ! r) = i))
           \<and> (\<exists>ids. AFindMany 0 ids 0 0 \<in> set calls \<and> JStr ''7'' \<in> set ids))
   \<and> adapterLog (snd (findMany 0 [0, 2] (TClass 0) 0 storeLoading)) = [AFindMany 0 [JStr ''7''] 0 0]"
proof -
  have a: "findMany 0 [0, 2] (TClass 0) 0 storeLoading
             = (Ok 0, snd (findMany 0 [0, 2] (TClass 0) 0 storeLoading))"
    by (simp add: prod_eq_iff)
       (simp add: storeLoading_def evals evals2 findMany_def fetchMany_def isEmpty_def
          setArray_def loadingData_def)
  have b: "isEmpty (mstate (models storeLoading ! 2))" "\<not> isEmpty (mstate (models storeLoading ! 0))"
    "mtype (models storeLoading ! 2) = 0" "mid (models storeLoading ! 2) = JStr ''7''"
    by (simp_all add: storeLoading_def evals evals2 isEmpty_def)
  from findMany_fetches_only_empty [of 0 0 storeLoading "[0, 2]" "TClass 0" 0
         "snd (findMany 0 [0, 2] (TClass 0) 0 storeLoading)"] a
  obtain calls where c:
    "adapterLog (snd (findMany 0 [0, 2] (TClass 0) 0 storeLoading)) = adapterLog storeLoading @ calls"
    "\<forall>c \<in> set calls. \<exists>ty ids. c = AFindMany ty ids 0 0
                  \<and> (\<forall>i \<in> set ids. \<exists>r \<in> set [0, 2]. isEmpty (mstate (models storeLoading ! r))
                         \<and> mtype (models storeLoading ! r) = ty \<and> mid (models storeLoading ! r) = i)"
    "\<forall>r \<in> set [0, 2]. isEmpty (mstate (models storeLoading ! r)) \<longrightarrow>
                  (\<exists>ids. AFindMany (mtype (models storeLoading ! r)) ids 0 0 \<in> set calls
                         \<and> mid (models storeLoading ! r) \<in> set ids)"
    by blast
  from c(3) b have "\<exists>ids. AFindMany 0 ids 0 0 \<in> set calls \<and> JStr ''7'' \<in> set ids"
    by simp
  with c(1,2) have d: "\<exists>calls. adapterLog (snd (findMany 0 [0, 2] (TClass 0) 0 storeLoading))
                   = adapterLog storeLoading @ calls
           \<and> (\<forall>c \<in> set calls. \<exists>ty ids. c = AFindMany ty ids 0 0
                  \<and> (\<forall>i \<in> set ids. \<exists>r \<in> set [0, 2]. isEmpty (mstate (models storeLoading ! r))
                         \<and> mtype (models storeLoading ! r) = ty \<and> mid (models storeLoading ! r) = i))
           \<and> (\<exists>ids. AFindMany 0 ids 0 0 \<in> set calls \<and> JStr ''7'' \<in> set ids)"
    by (intro exI [of _ calls] conjI)
  have e: "adapterLog (snd (findMany 0 [0, 2] (TClass 0) 0 storeLoading)) = [AFindMany 0 [JStr ''7''] 0 0]"
    by (simp add: storeLoading_def evals evals2 findMany_def fetchMany_def isEmpty_def
          setArray_def loadingData_def)
  from a have a': "fst (findMany 0 [0, 2] (TClass 0) 0 storeLoading) = Ok 0" by (simp add: prod_eq_iff)
  from a' b(1,2) d e show ?thesis by (intro conjI)
qed

section \<open>Assigning a server identifier\<close>

text \<open>
  \<open>updateId\<close>: a record whose id is not \<^verbatim>\<open>null\<close> and differs from the coerced new
  id is refused with \<open>IdentityConflict\<close>, and the store is left as it was.
\<close>

lemma updateId_conflict:
  "getModel w r = Some m \<Longrightarrow> mid m \<noteq> JNull \<Longrightarrow> coerceId d \<noteq> mid m \<Longrightarrow>
   updateId r d w = (Throw IdentityConflict, w)"
  by (simp add: updateId_def)

text \<open>\<open>didSaveRecord\<close> with data reaches \<open>updateId\<close> first and fails with it.\<close>

lemma didSaveRecord_conflict:
  "getModel w r = Some m \<Longrightarrow> mid m \<noteq> JNull \<Longrightarrow> coerceId d \<noteq> mid m \<Longrightarrow>
   didSaveRecord r (Some d) w = (Throw IdentityConflict, w)"
  by (simp add: didSaveRecord_def updateId_conflict)

text \<open>
  \<open>updateId\<close>: otherwise it succeeds, the record is in the \<open>idToRecord\<close> of its type
  under the new id, and the record carries the new id.
\<close>

lemma updateId_indexes:
  assumes "getModel w r = Some m" and "mid m = JNull \<or> coerceId d = mid m"
  shows "\<exists>w1 tm1. updateId r d w = (Ok (), w1) \<and> typeMaps w1 (mtype m) = Some tm1
           \<and> idToRecord tm1 (toStr (coerceId d)) = Some r
           \<and> getModel w1 r = Some (m\<lparr>mid := coerceId d\<rparr>)"
proof -
  obtain tm w' where t: "typeMapFor (mtype m) w = (tm, w')" by (cases "typeMapFor (mtype m) w")
  from typeMapFor_result [OF t] have fr: "models w' = models w" by simp
  from assms(1) have "r < length (models w)" "models w ! r = m"
    by (auto simp: getModel_def split: if_splits)
  with assms t fr show ?thesis
    by (auto simp: updateId_def Let_def putTypeMap_def setId_def getModel_def)
qed

text \<open>
  \<open>didReceiveId\<close>: a record whose id is not \<^verbatim>\<open>undefined\<close> and differs from the new
  id is refused with \<open>IdentityConflict\<close>.
\<close>

lemma didReceiveId_conflict:
  "getModel w r = Some m \<Longrightarrow> mid m \<noteq> JUndefined \<Longrightarrow> i \<noteq> mid m \<Longrightarrow>
   fst (didReceiveId r i w) = Throw IdentityConflict"
  by (simp add: didReceiveId_def Let_def split: prod.splits)

text \<open>
  Claim C5 at \<open>didReceiveId\<close>. It never succeeds, whatever the record and the id.
  For record 0 of \<open>storeTwoNew\<close>, made by \<open>createRecord\<close> without an id and so
  carrying the id \<^verbatim>\<open>null\<close>, \<open>didReceiveId\<close> with the id "42" fails with
  \<open>IdentityConflict\<close> although the record has no identifier; \<open>updateId\<close> with the
  same id succeeds and indexes the record under "42". For a record whose id is
  \<^verbatim>\<open>undefined\<close> the assertion passes and the write to \<^verbatim>\<open>typeMap.idToCid\<close> is a
  \<open>TypeError\<close>.
\<close>

theorem didReceiveId_never_succeeds:
  "(\<exists>e. fst (didReceiveId r i w) = Throw e)
   \<and> getModel storeTwoNew 0 = Some \<lparr>mtype = 0, mid = JNull, mstate = New\<rparr>
   \<and> fst (didReceiveId 0 (JStr ''42'') storeTwoNew) = Throw IdentityConflict
   \<and> fst (updateId 0 (JStr ''42'') storeTwoNew) = Ok ()
   \<and> idToRecord (the (typeMaps (snd (updateId 0 (JStr ''42'') storeTwoNew)) 0)) ''42'' = Some 0
   \<and> mid (models (snd (updateId 0 (JStr ''42'') storeTwoNew)) ! 0) = JStr ''42''
   \<and> mid (models (snd (getById (TClass 0) JUndefined store0)) ! 0) = JUndefined
   \<and> fst (didReceiveId 0 (JStr ''42'') (snd (getById (TClass 0) JUndefined store0)))
       = Throw TypeError"
proof -
  have "\<exists>e. fst (didReceiveId r i w) = Throw e"
    by (simp add: didReceiveId_def Let_def split: option.splits prod.splits)
  moreover have "getModel storeTwoNew 0 = Some \<lparr>mtype = 0, mid = JNull, mstate = New\<rparr>"
    by (simp add: evals evals2)
  moreover have "fst (didReceiveId 0 (JStr ''42'') storeTwoNew) = Throw IdentityConflict"
    by (simp add: evals evals2 didReceiveId_def)
  moreover have "fst (updateId 0 (JStr ''42'') storeTwoNew) = Ok ()"
    "idToRecord (the (typeMaps (snd (updateId 0 (JStr ''42'') storeTwoNew)) 0)) ''42'' = Some 0"
    "mid (models (snd (updateId 0 (JStr ''42'') storeTwoNew)) ! 0) = JStr ''42''"
    by (simp_all add: evals evals2 updateId_def)
  moreover have "mid (models (snd (getById (TClass 0) JUndefined store0)) ! 0) = JUndefined"
    "fst (didReceiveId 0 (JStr ''42'') (snd (getById (TClass 0) JUndefined store0))) = Throw TypeError"
    by (simp_all add: evals didReceiveId_def)
  ultimately show ?thesis by (intro conjI)
qed

end
